theory Spec2Isabelle
  imports Main "HOL-Library.AList"
begin

section \<open>Session cache: \<^verbatim>\<open>marimo/_server/session/serialize.py\<close>\<close>

text \<open>
  Python dictionaries keep their keys in insertion order and without duplicates. They are
  modelled as association lists: \<open>map_of\<close> reads a key, \<open>AList.update\<close> is
  \<^verbatim>\<open>d[k] = v\<close> (replace in place, or append a new key at the end) and
  \<open>AList.delete\<close> is \<^verbatim>\<open>del d[k]\<close>.
\<close>

type_synonym CellId_t = string

subsection \<open>The cached document (\<^verbatim>\<open>NotebookSessionV1\<close>)\<close>

text \<open>
  The output and console entries of a cell, as \<^verbatim>\<open>serialize_session_view\<close>
  builds them: an error output, a data output (a dictionary from mimetype to data), a
  stream output named \<^verbatim>\<open>stdout\<close> or \<^verbatim>\<open>stderr\<close>, and a media stream
  output (always named \<^verbatim>\<open>media\<close>). \<open>UnknownOutput\<close> stands for an entry of
  a cache file whose \<^verbatim>\<open>type\<close> is neither \<^verbatim>\<open>error\<close> nor
  \<^verbatim>\<open>data\<close>. Payloads are kept as strings.
\<close>

datatype OutputType =
    ErrorOutput (ename: string) (evalue: string) (traceback: "string list")
  | DataOutput "(string \<times> string) list"
  | UnknownOutput string

datatype StreamName = Stdout | Stderr

datatype ConsoleType =
    StreamOutput StreamName string
  | StreamMediaOutput (media_mimetype: string) (media_data: string)

record Cell =
  cell_id :: CellId_t
  code_hash :: "string option"
  outputs :: "OutputType list"
  console :: "ConsoleType list"

record NotebookSessionV1 =
  version :: string
  metadata_marimo_version :: string
  cells :: "Cell list"

subsection \<open>The session view\<close>

datatype CellChannel = STDOUT | STDERR | STDIN | PDB | OUTPUT | MARIMO_ERROR | MEDIA

record MarimoExceptionRaisedError =
  exception_type :: string
  msg :: string
  raising_cell :: "CellId_t option"

datatype OutputData =
    TextData string
  | ErrorData "MarimoExceptionRaisedError list"
  | MimeBundle "(string \<times> string) list"

record CellOutput =
  channel :: CellChannel
  mimetype :: string
  output_data :: OutputData

record CellOp =
  op_cell_id :: CellId_t
  status :: string
  op_output :: "CellOutput option"
  op_console :: "CellOutput list"
  timestamp :: nat

text \<open>
  Control requests (\<^verbatim>\<open>marimo._runtime.requests\<close>): the kinds the session layer
  builds or tests for, and \<open>OtherControlRequest\<close> for every other kind. An execution
  request of a \<open>CreationRequest\<close> is a pair of a cell id and its code.
\<close>

datatype ControlRequest =
    ExecuteMultipleRequest (cell_ids: "CellId_t list") (codes: "string list")
  | SetUIElementValueRequest (object_ids: "string list") (ui_values: "string list")
      (token: string)
  | CreationRequest "(CellId_t \<times> string) list" "string list" "string list" bool
  | StopRequest
  | OtherControlRequest string

text \<open>
  Of the class \<^verbatim>\<open>SessionView\<close> the fields read or written by the code under
  study are kept. \<open>control_requests\<close> is the record of the calls of
  \<^verbatim>\<open>add_control_request\<close>.
\<close>

record SessionView =
  cell_operations :: "(CellId_t \<times> CellOp) list"
  last_executed_code :: "(CellId_t \<times> string) list"
  control_requests :: "ControlRequest list"

definition SessionView_init :: SessionView where
  "SessionView_init =
     \<lparr>cell_operations = [], last_executed_code = [], control_requests = []\<rparr>"

subsection \<open>Exceptions\<close>

text \<open>
  The exceptions of the code under study. \<open>ConsumerStopError\<close> is whatever the stop
  hook of a consumer raises. \<open>Hangs\<close> is not an exception: it stands for a call that
  never returns (\<^verbatim>\<open>close_kernel\<close> waiting for a profile file that is never
  written); like a raise it ends every calling function, and no handler catches it.
\<close>

datatype PyError =
    AssertionError string
  | KeyError
  | TypeError
  | InvalidSessionException string
  | ConsumerStopError nat
  | OSError
  | JSONDecodeError
  | Hangs

subsection \<open>\<^verbatim>\<open>deserialize_session\<close>\<close>







subsection \<open>Cache file path, code hash and cache key\<close>

text \<open>
  A \<^verbatim>\<open>pathlib.Path\<close>: its anchor (\<^verbatim>\<open>/\<close> for an absolute path, empty for
  a relative one) and its components after the anchor. The parent of a path without
  components is the path itself, and its name is empty.
\<close>

record Path =
  anchor :: string
  parts :: "string list"




text \<open>
  \<^verbatim>\<open>_hash_code\<close>. The digest \<^verbatim>\<open>hashlib.md5(...).hexdigest()\<close> of the
  standard library is the parameter \<open>md5\<close>.
\<close>

definition hash_code :: "(string \<Rightarrow> string) \<Rightarrow> string option \<Rightarrow> string option" where
  "hash_code md5 code =
     (if code = None \<or> code = Some '''' then None else Some (md5 (the code)))"

record SessionCacheKey =
  key_codes :: "string option list"
  marimo_version :: string

subsection \<open>\<^verbatim>\<open>SessionCacheManager\<close>\<close>

record SessionCacheManager =
  session_view :: SessionView
  path :: "Path option"
  interval :: nat
  session_cache_writer :: "Path option"

definition is_cache_hit ::
  "(string \<Rightarrow> string) \<Rightarrow> NotebookSessionV1 \<Rightarrow> SessionCacheKey \<Rightarrow> bool" where
  "is_cache_hit md5 notebook_session key =
     (if length (key_codes key) \<noteq> length (cells notebook_session) \<or>
         list_ex (\<lambda>(code, cell). hash_code md5 code \<noteq> code_hash cell)
           (zip (key_codes key) (cells notebook_session))
      then False
      else if marimo_version key \<noteq> metadata_marimo_version notebook_session
      then False
      else True)"







section \<open>Sessions: \<^verbatim>\<open>marimo/_server/sessions.py\<close>\<close>

type_synonym ConsumerId = string
type_synonym SessionId = string

datatype ConnectionState = OPEN | CLOSED | ORPHANED

datatype SessionMode = EDIT | RUN

text \<open>
  A \<^verbatim>\<open>SessionConsumer\<close> is an object of the transport layer; the room keys its
  dictionaries by the object, so a consumer is modelled by its identity, a number. What
  its attribute and methods give at the time of a call is the \<open>Consumers\<close> record:
  \<^verbatim>\<open>consumer.consumer_id\<close>, \<^verbatim>\<open>consumer.connection_state()\<close>, and whether
  \<^verbatim>\<open>consumer.on_stop()\<close> raises (\<^verbatim>\<open>remove_consumer\<close> guards against
  that with \<^verbatim>\<open>try\<close>/\<^verbatim>\<open>finally\<close>). A \<^verbatim>\<open>Disposable\<close> is likewise
  a number.
\<close>

type_synonym SessionConsumer = nat
type_synonym Disposable = nat

record Consumers =
  consumer_id :: "SessionConsumer \<Rightarrow> ConsumerId"
  consumer_connection_state :: "SessionConsumer \<Rightarrow> ConnectionState"
  on_stop_raises :: "SessionConsumer \<Rightarrow> bool"

datatype MessageOperation =
    UpdateCellCodes "CellId_t list" "string list" bool
  | FocusCell CellId_t
  | Reload
  | UpdateCellIdsRequest "CellId_t list"
  | OtherOperation string

text \<open>
  The calls a function makes on its collaborators are returned as a list of events, in
  the order of the calls.
\<close>

datatype Event =
    OnStop SessionConsumer
  | Dispose Disposable
  | WriteOperation SessionConsumer MessageOperation
  | ControlQueuePut ControlRequest
  | SetUIElementQueuePut ControlRequest
  | AddControlRequest ControlRequest
  | DistributorStop
  | HeartbeatCancel
  | CacheWriterStop
  | CloseQueues
  | KernelTerminate
  | ReadConnClose
  | RemoveWatcherCallback string

subsection \<open>\<^verbatim>\<open>Room\<close>\<close>

record Room =
  main_consumer :: "SessionConsumer option"
  consumers :: "(SessionConsumer \<times> ConsumerId) list"
  disposables :: "(SessionConsumer \<times> Disposable) list"

definition Room_init :: Room where
  "Room_init = \<lparr>main_consumer = None, consumers = [], disposables = []\<rparr>"

text \<open>
  \<^verbatim>\<open>add_consumer\<close> returns the exception raised, if any, and the room as it is
  when the call ends: the two dictionaries are written before the assertion is checked.
\<close>

definition add_consumer ::
  "Room \<Rightarrow> SessionConsumer \<Rightarrow> Disposable \<Rightarrow> ConsumerId \<Rightarrow> bool
     \<Rightarrow> PyError option \<times> Room" where
  "add_consumer self consumer dispose cid main =
     (let r1 = self\<lparr>consumers := AList.update consumer cid (consumers self)\<rparr>;
          r2 = r1\<lparr>disposables := AList.update consumer dispose (disposables r1)\<rparr>
      in if main then
           (if main_consumer r2 \<noteq> None
            then (Some (AssertionError ''Main session consumer already exists''), r2)
            else (None, r2\<lparr>main_consumer := Some consumer\<rparr>))
         else (None, r2))"

text \<open>
  \<^verbatim>\<open>remove_consumer\<close> returns the exception raised, if any, the room and the
  calls made. \<^verbatim>\<open>dict.pop\<close> of a missing key raises \<^verbatim>\<open>KeyError\<close>; an
  exception of \<^verbatim>\<open>on_stop\<close> is raised again after the \<^verbatim>\<open>finally\<close> block
  has run.
\<close>

definition remove_consumer ::
  "Consumers \<Rightarrow> Room \<Rightarrow> SessionConsumer \<Rightarrow> PyError option \<times> Room \<times> Event list" where
  "remove_consumer w self consumer =
     (if map_of (consumers self) consumer = None then (None, self, [])
      else
        (let r1 = (if Some consumer = main_consumer self
                   then self\<lparr>main_consumer := None\<rparr> else self);
             r2 = r1\<lparr>consumers := AList.delete consumer (consumers r1)\<rparr>
         in case map_of (disposables r2) consumer of
              None \<Rightarrow> (Some KeyError, r2, [])
            | Some disposable \<Rightarrow>
                (let r3 = r2\<lparr>disposables := AList.delete consumer (disposables r2)\<rparr>
                 in (if on_stop_raises w consumer
                     then Some (ConsumerStopError consumer) else None,
                     r3, [OnStop consumer, Dispose disposable]))))"

text \<open>
  \<^verbatim>\<open>broadcast\<close>: the loop over the keys of \<^verbatim>\<open>self.consumers\<close>. The
  consumer's own \<^verbatim>\<open>consumer_id\<close> attribute is compared with
  \<^verbatim>\<open>except_consumer\<close>, which may be \<^verbatim>\<open>None\<close>.
\<close>

fun broadcast_loop ::
  "Consumers \<Rightarrow> SessionConsumer list \<Rightarrow> MessageOperation \<Rightarrow> ConsumerId option
     \<Rightarrow> Event list" where
  "broadcast_loop w [] operation except_consumer = []"
| "broadcast_loop w (consumer # rest) operation except_consumer =
     (if Some (consumer_id w consumer) = except_consumer
      then broadcast_loop w rest operation except_consumer
      else if consumer_connection_state w consumer = OPEN
      then WriteOperation consumer operation
             # broadcast_loop w rest operation except_consumer
      else broadcast_loop w rest operation except_consumer)"

definition broadcast ::
  "Consumers \<Rightarrow> Room \<Rightarrow> MessageOperation \<Rightarrow> ConsumerId option \<Rightarrow> Event list" where
  "broadcast w self operation except_consumer =
     broadcast_loop w (map fst (consumers self)) operation except_consumer"

text \<open>
  \<^verbatim>\<open>Room.close\<close>: the loop pops the disposable, calls \<^verbatim>\<open>on_stop\<close> and
  then \<^verbatim>\<open>dispose\<close>, with no \<^verbatim>\<open>try\<close>; an exception leaves the loop with the
  dictionaries as they are at that point.
\<close>

fun Room_close_loop ::
  "Consumers \<Rightarrow> SessionConsumer list \<Rightarrow> (SessionConsumer \<times> Disposable) list
     \<Rightarrow> PyError option \<times> (SessionConsumer \<times> Disposable) list \<times> Event list" where
  "Room_close_loop w [] ds = (None, ds, [])"
| "Room_close_loop w (consumer # rest) ds =
     (case map_of ds consumer of
        None \<Rightarrow> (Some KeyError, ds, [])
      | Some disposable \<Rightarrow>
          (let ds1 = AList.delete consumer ds in
           if on_stop_raises w consumer
           then (Some (ConsumerStopError consumer), ds1, [OnStop consumer])
           else
             (case Room_close_loop w rest ds1 of
                (e, ds2, evs) \<Rightarrow> (e, ds2, OnStop consumer # Dispose disposable # evs))))"

definition Room_close :: "Consumers \<Rightarrow> Room \<Rightarrow> PyError option \<times> Room \<times> Event list" where
  "Room_close w self =
     (case Room_close_loop w (map fst (consumers self)) (disposables self) of
        (Some e, ds, evs) \<Rightarrow> (Some e, self\<lparr>disposables := ds\<rparr>, evs)
      | (None, ds, evs) \<Rightarrow>
          (None, self\<lparr>disposables := ds, consumers := [], main_consumer := None\<rparr>, evs))"

subsection \<open>\<^verbatim>\<open>QueueManager\<close> and \<^verbatim>\<open>KernelManager\<close>\<close>

text \<open>
  The queues hold the requests put so far. \<open>use_multiprocessing\<close> says whether they are
  multiprocessing queues (edit mode) or thread queues (run mode).
\<close>

record QueueManager =
  use_multiprocessing :: bool
  control_queue :: "ControlRequest list"
  set_ui_element_queue :: "ControlRequest list"

definition close_queues :: "QueueManager \<Rightarrow> QueueManager \<times> Event list" where
  "close_queues self =
     (if use_multiprocessing self then (self, [CloseQueues])
      else (self\<lparr>control_queue := control_queue self @ [StopRequest]\<rparr>,
            [ControlQueuePut StopRequest]))"

text \<open>
  The kernel task is a process or a thread, with what \<^verbatim>\<open>is_alive()\<close> answers
  during a call (a terminated process is no longer alive afterwards). \<open>read_conn\<close>
  says whether the manager holds a connection to the kernel. \<open>profile_path\<close> is the
  property of that name, set when the server has a profile directory;
  \<open>profile_written_after\<close> is the number of calls of
  \<^verbatim>\<open>os.path.exists(self.profile_path)\<close> that answer false before one answers true,
  and \<open>None\<close> when none ever answers true.
\<close>

datatype KernelTask = Process (alive: bool) | Thread (alive: bool)

record KernelManager =
  kernel_task :: "KernelTask option"
  read_conn :: bool
  profile_path :: "string option"
  profile_written_after :: "nat option"

definition profile_exists :: "KernelManager \<Rightarrow> nat \<Rightarrow> bool" where
  "profile_exists self n =
     (case profile_written_after self of None \<Rightarrow> False | Some k \<Rightarrow> k \<le> n)"

text \<open>
  The loop \<^verbatim>\<open>while not os.path.exists(self.profile_path): time.sleep(0.1)\<close>:
  \<open>file_exists n\<close> is the answer of the call number \<open>n\<close>. The loop has no bound;
  the result is \<open>None\<close> when it never ends.
\<close>

partial_function (option) wait_for_profile :: "(nat \<Rightarrow> bool) \<Rightarrow> nat \<Rightarrow> nat option" where
  "wait_for_profile file_exists n =
     (if file_exists n then Some n else wait_for_profile file_exists (Suc n))"

text \<open>
  \<^verbatim>\<open>close_kernel\<close>. With a profile path and a live process it first puts a stop
  request on the control queue and waits for the profile file.
\<close>

definition close_kernel ::
  "KernelManager \<Rightarrow> QueueManager
     \<Rightarrow> PyError option \<times> KernelManager \<times> QueueManager \<times> Event list" where
  "close_kernel self qm =
     (case kernel_task self of
        None \<Rightarrow> (Some (AssertionError ''kernel not started''), self, qm, [])
      | Some (Process is_alive) \<Rightarrow>
          (let (returns, qm0, evs0) =
                 (if profile_path self \<noteq> None \<and> is_alive
                  then (wait_for_profile (profile_exists self) 0 \<noteq> None,
                        qm\<lparr>control_queue := control_queue qm @ [StopRequest]\<rparr>,
                        [ControlQueuePut StopRequest])
                  else (True, qm, []))
           in if \<not> returns then (Some Hangs, self, qm0, evs0)
              else
                (case close_queues qm0 of
                   (qm1, evs1) \<Rightarrow>
                     (None,
                      self\<lparr>kernel_task := Some (Process False)\<rparr>,
                      qm1,
                      evs0 @ evs1 @ (if is_alive then [KernelTerminate] else [])
                           @ (if read_conn self then [ReadConnClose] else []))))
      | Some (Thread is_alive) \<Rightarrow>
          (if is_alive
           then (None, self, qm\<lparr>control_queue := control_queue qm @ [StopRequest]\<rparr>,
                 [ControlQueuePut StopRequest])
           else (None, self, qm, [])))"

subsection \<open>\<^verbatim>\<open>Session\<close>\<close>

text \<open>
  \<^verbatim>\<open>SessionCacheManager.stop\<close>: whether the writer was running, the manager and
  the calls made.
\<close>

definition SessionCacheManager_stop ::
  "SessionCacheManager \<Rightarrow> bool \<times> SessionCacheManager \<times> Event list" where
  "SessionCacheManager_stop self =
     (if session_cache_writer self = None then (False, self, [])
      else (True, self\<lparr>session_cache_writer := None\<rparr>, [CacheWriterStop]))"

text \<open>
  The fields of a session. \<open>app_file_manager_path\<close> is
  \<^verbatim>\<open>self.app_file_manager.path\<close>; \<open>s_session_view\<close> is
  \<^verbatim>\<open>self.session_view\<close>; \<open>heartbeat_task\<close> holds whether the task has been
  cancelled; \<open>distributor_running\<close> is the state of the message distributor;
  \<open>closed\<close> is \<^verbatim>\<open>self._closed\<close>.
\<close>

record Session =
  initialization_id :: string
  app_file_manager_path :: "string option"
  room :: Room
  queue_manager :: QueueManager
  kernel_manager :: KernelManager
  s_session_view :: SessionView
  session_cache_manager :: "SessionCacheManager option"
  heartbeat_task :: "bool option"
  distributor_running :: bool
  closed :: bool

text \<open>
  Modelled from the spec: \<^verbatim>\<open>SessionView.add_control_request\<close> is not among the
  sources; the request is appended to the session view.
\<close>

definition add_control_request :: "SessionView \<Rightarrow> ControlRequest \<Rightarrow> SessionView" where
  "add_control_request view request =
     view\<lparr>control_requests := control_requests view @ [request]\<rparr>"

definition put_control_request ::
  "Consumers \<Rightarrow> Session \<Rightarrow> ControlRequest \<Rightarrow> ConsumerId option \<Rightarrow> Session \<times> Event list" where
  "put_control_request w self request from_consumer_id =
     (let qm1 = (queue_manager self)
                  \<lparr>control_queue := control_queue (queue_manager self) @ [request]\<rparr>;
          evs1 = [ControlQueuePut request];
          (qm2, evs2) =
            (case request of
               SetUIElementValueRequest ids vals tok \<Rightarrow>
                 (qm1\<lparr>set_ui_element_queue := set_ui_element_queue qm1 @ [request]\<rparr>,
                  [SetUIElementQueuePut request])
             | _ \<Rightarrow> (qm1, []));
          evs3 =
            (case request of
               ExecuteMultipleRequest ids cs \<Rightarrow>
                 broadcast w (room self) (UpdateCellCodes ids cs False) from_consumer_id
                 @ (if length ids = 1
                    then broadcast w (room self) (FocusCell (ids ! 0)) from_consumer_id
                    else [])
             | _ \<Rightarrow> [])
      in (self\<lparr>queue_manager := qm2,
               s_session_view := add_control_request (s_session_view self) request\<rparr>,
          evs1 @ evs2 @ evs3 @ [AddControlRequest request]))"

definition connection_state :: "Consumers \<Rightarrow> Session \<Rightarrow> ConnectionState" where
  "connection_state w self =
     (if closed self then CLOSED
      else case main_consumer (room self) of
             None \<Rightarrow> ORPHANED
           | Some c \<Rightarrow> consumer_connection_state w c)"

text \<open>
  \<^verbatim>\<open>Session.close\<close>: the exception raised, if any, the session and the calls
  made. An exception of a step ends the call there.
\<close>

definition Session_close ::
  "Consumers \<Rightarrow> Session \<Rightarrow> PyError option \<times> Session \<times> Event list" where
  "Session_close w self =
     (if closed self then (None, self, [])
      else
        (let s1 = self\<lparr>closed := True\<rparr> in
         case Room_close w (room s1) of
           (Some e, r, evs1) \<Rightarrow> (Some e, s1\<lparr>room := r\<rparr>, evs1)
         | (None, r, evs1) \<Rightarrow>
             (let s2 = s1\<lparr>room := r, distributor_running := False\<rparr>;
                  evs2 = [DistributorStop];
                  (s3, evs3) =
                    (case heartbeat_task s2 of
                       None \<Rightarrow> (s2, [])
                     | Some cancelled \<Rightarrow>
                         (s2\<lparr>heartbeat_task := Some True\<rparr>, [HeartbeatCancel]));
                  (s4, evs4) =
                    (case session_cache_manager s3 of
                       None \<Rightarrow> (s3, [])
                     | Some m \<Rightarrow>
                         (case SessionCacheManager_stop m of
                            (was_running, m1, evs) \<Rightarrow>
                              (s3\<lparr>session_cache_manager := Some m1\<rparr>, evs)))
              in case close_kernel (kernel_manager s4) (queue_manager s4) of
                   (e, km, qm, evs5) \<Rightarrow>
                     (e, s4\<lparr>kernel_manager := km, queue_manager := qm\<rparr>,
                      evs1 @ evs2 @ evs3 @ evs4 @ evs5))))"

subsection \<open>\<^verbatim>\<open>SessionManager\<close>\<close>

text \<open>
  The session manager: its mode, the dictionary of sessions and whether files are
  watched. A session object is held under one key at a time, so the dictionary holds the
  sessions themselves; a function that changes a session stores it back under its key.
\<close>

record SessionManager =
  mode :: SessionMode
  sessions :: "(SessionId \<times> Session) list"
  watch :: bool

text \<open>
  \<^verbatim>\<open>get_session\<close>: the session stored under the id or, failing that, the first
  session whose room has a consumer with that consumer id. \<open>get_session_entry\<close> also
  gives the key the session is stored under.
\<close>

definition get_session_entry ::
  "SessionManager \<Rightarrow> SessionId \<Rightarrow> (SessionId \<times> Session) option" where
  "get_session_entry self session_id =
     (case map_of (sessions self) session_id of
        Some session \<Rightarrow> Some (session_id, session)
      | None \<Rightarrow>
          find (\<lambda>(k, session). session_id \<in> set (map snd (consumers (room session))))
            (sessions self))"

definition get_session :: "SessionManager \<Rightarrow> SessionId \<Rightarrow> Session option" where
  "get_session self session_id = map_option snd (get_session_entry self session_id)"

text \<open>
  \<^verbatim>\<open>close_session\<close>: the exception raised, if any, the value returned, the
  manager and the calls made.
\<close>

definition close_session ::
  "Consumers \<Rightarrow> SessionManager \<Rightarrow> SessionId
     \<Rightarrow> PyError option \<times> bool \<times> SessionManager \<times> Event list" where
  "close_session w self session_id =
     (case get_session_entry self session_id of
        None \<Rightarrow> (None, False, self, [])
      | Some (k, session) \<Rightarrow>
          (let evs0 =
                 (case app_file_manager_path session of
                    None \<Rightarrow> []
                  | Some p \<Rightarrow> if p \<noteq> '''' \<and> watch self
                              then [RemoveWatcherCallback p] else [])
           in case Session_close w session of
                (e, session1, evs1) \<Rightarrow>
                  (let m1 = self\<lparr>sessions := AList.update k session1 (sessions self)\<rparr>
                   in case e of
                        Some x \<Rightarrow> (Some x, False, m1, evs0 @ evs1)
                      | None \<Rightarrow>
                          (None, True,
                           (if map_of (sessions m1) session_id \<noteq> None
                            then m1\<lparr>sessions := AList.delete session_id (sessions m1)\<rparr>
                            else m1),
                           evs0 @ evs1))))"

text \<open>
  The first loop of \<^verbatim>\<open>maybe_resume_session\<close> in edit mode, over the list of
  items taken before the loop: a session whose kernel task exists and is not alive is
  closed.
\<close>

definition kernel_dead :: "Session \<Rightarrow> bool" where
  "kernel_dead session =
     (case kernel_task (kernel_manager session) of
        None \<Rightarrow> False
      | Some task \<Rightarrow> \<not> alive task)"

fun cleanup_loop ::
  "Consumers \<Rightarrow> (SessionId \<times> Session) list \<Rightarrow> SessionManager
     \<Rightarrow> PyError option \<times> SessionManager \<times> Event list" where
  "cleanup_loop w [] self = (None, self, [])"
| "cleanup_loop w ((session_id, session) # rest) self =
     (if kernel_dead session
      then
        (case close_session w self session_id of
           (Some e, b, m, evs) \<Rightarrow> (Some e, m, evs)
         | (None, b, m, evs) \<Rightarrow>
             (case cleanup_loop w rest m of
                (e, m1, evs1) \<Rightarrow> (e, m1, evs @ evs1)))
      else cleanup_loop w rest self)"

text \<open>
  \<^verbatim>\<open>maybe_resume_session\<close>: the exception raised or the value returned, the
  manager and the calls made. \<open>abspath\<close> is \<^verbatim>\<open>os.path.abspath\<close>.
\<close>

definition maybe_resume_session ::
  "Consumers \<Rightarrow> (string \<Rightarrow> string) \<Rightarrow> SessionManager \<Rightarrow> SessionId \<Rightarrow> string
     \<Rightarrow> (PyError + Session option) \<times> SessionManager \<times> Event list" where
  "maybe_resume_session w abspath self new_session_id file_key =
     (if mode self = RUN then
        (case get_session self new_session_id of
           Some maybe_session \<Rightarrow>
             if connection_state w maybe_session = ORPHANED
             then (Inr (Some maybe_session), self, [])
             else (Inr None, self, [])
         | None \<Rightarrow> (Inr None, self, []))
      else
        (case cleanup_loop w (sessions self) self of
           (Some e, m, evs) \<Rightarrow> (Inl e, m, evs)
         | (None, m, evs) \<Rightarrow>
             (let sessions_with_the_same_file =
                    filter (\<lambda>(session_id, session).
                              app_file_manager_path session = Some (abspath file_key))
                      (sessions m)
              in if length sessions_with_the_same_file = 0 then (Inr None, m, evs)
                 else if length sessions_with_the_same_file > 1
                 then (Inl (InvalidSessionException
                              ''Only one session should exist while editing''), m, evs)
                 else
                   (case hd sessions_with_the_same_file of
                      (session_id, session) \<Rightarrow>
                        if connection_state w session = ORPHANED
                        then
                          (let m1 = m\<lparr>sessions :=
                                        AList.update new_session_id session (sessions m)\<rparr>;
                               m2 = (if new_session_id \<noteq> session_id \<and>
                                        map_of (sessions m1) session_id \<noteq> None
                                     then m1\<lparr>sessions :=
                                                AList.delete session_id (sessions m1)\<rparr>
                                     else m1)
                           in (Inr (Some session), m2, evs))
                        else (Inr None, m, evs)))))"

section \<open>Example inputs\<close>

text \<open>
  Concrete inputs on which the theorems below are evaluated. The digest is replaced by
  \<open>example_md5\<close>, which puts \<^verbatim>\<open>#\<close> in front of the text.
\<close>

definition example_md5 :: "string \<Rightarrow> string" where
  "example_md5 s = CHR ''#'' # s"

definition example_doc :: NotebookSessionV1 where
  "example_doc =
     \<lparr>version = ''1'', metadata_marimo_version = ''0.10.0'',
      cells = [\<lparr>cell_id = ''a'', code_hash = Some ''#x=1'',
                outputs = [DataOutput [(''text/plain'', ''1'')]],
                console = [StreamOutput Stdout ''hi'']\<rparr>,
               \<lparr>cell_id = ''b'', code_hash = None, outputs = [], console = []\<rparr>]\<rparr>"

definition example_cache_manager :: SessionCacheManager where
  "example_cache_manager =
     \<lparr>session_view = SessionView_init,
      path = Some \<lparr>anchor = ''/'', parts = [''nb'', ''a.py'']\<rparr>, interval = 2,
      session_cache_writer = None\<rparr>"




text \<open>
  A room with the main consumer 1 and the consumers 2 and 3; the stop hook of consumer 2
  raises and consumer 3 has closed its connection.
\<close>

definition example_consumers :: Consumers where
  "example_consumers =
     \<lparr>consumer_id = (\<lambda>c. if c = 1 then ''main'' else if c = 2 then ''kiosk'' else ''other''),
      consumer_connection_state = (\<lambda>c. if c = 3 then CLOSED else OPEN),
      on_stop_raises = (\<lambda>c. c = 2)\<rparr>"

definition example_room :: Room where
  "example_room =
     \<lparr>main_consumer = Some 1,
      consumers = [(1, ''main''), (2, ''kiosk''), (3, ''other'')],
      disposables = [(1, 10), (2, 20), (3, 30)]\<rparr>"

text \<open>
  An edit-mode session on the example room, with a running heartbeat task, a running cache
  writer and a live kernel process; and consumers none of whose stop hooks raises.
\<close>

definition example_quiet_consumers :: Consumers where
  "example_quiet_consumers = example_consumers\<lparr>on_stop_raises := (\<lambda>c. False)\<rparr>"

definition example_session :: Session where
  "example_session =
     \<lparr>initialization_id = ''a.py'',
      app_file_manager_path = Some ''/nb/a.py'',
      room = example_room,
      queue_manager =
        \<lparr>use_multiprocessing = True, control_queue = [], set_ui_element_queue = []\<rparr>,
      kernel_manager =
        \<lparr>kernel_task = Some (Process True), read_conn = True, profile_path = None,
         profile_written_after = None\<rparr>,
      s_session_view = SessionView_init,
      session_cache_manager =
        Some (example_cache_manager
                \<lparr>session_cache_writer :=
                   Some \<lparr>anchor = ''/'',
                         parts = [''nb'', ''__marimo__'', ''session'', ''a.py.json'']\<rparr>\<rparr>),
      heartbeat_task = Some False,
      distributor_running = True,
      closed = False\<rparr>"

text \<open>
  An orphaned session: no main consumer, one other consumer with the consumer id
  \<^verbatim>\<open>kiosk\<close>. A run-mode manager holds it under the session id \<^verbatim>\<open>s1\<close>.
\<close>

definition example_orphan_session :: Session where
  "example_orphan_session =
     example_session
       \<lparr>room := \<lparr>main_consumer = None, consumers = [(2, ''kiosk'')],
                 disposables = [(2, 20)]\<rparr>\<rparr>"

definition example_run_manager :: SessionManager where
  "example_run_manager =
     \<lparr>mode = RUN, sessions = [(''s1'', example_orphan_session)], watch = False\<rparr>"

text \<open>
  Edit-mode managers. \<open>example_edit_manager\<close> holds, for the notebook
  \<^verbatim>\<open>/nb/a.py\<close>, the orphaned session under \<^verbatim>\<open>s1\<close> and a session whose
  kernel has died under \<^verbatim>\<open>s3\<close>, and for \<^verbatim>\<open>/nb/b.py\<close> a connected session
  under \<^verbatim>\<open>s2\<close>. \<open>example_edit_manager_two\<close> holds two live sessions for
  \<^verbatim>\<open>/nb/a.py\<close>. \<open>example_abspath\<close> resolves a file key against
  \<^verbatim>\<open>/nb\<close>.
\<close>

definition example_abspath :: "string \<Rightarrow> string" where
  "example_abspath file_key = ''/nb/'' @ file_key"

definition example_dead_session :: Session where
  "example_dead_session =
     example_orphan_session
       \<lparr>kernel_manager :=
          \<lparr>kernel_task = Some (Process False), read_conn = True, profile_path = None,
           profile_written_after = None\<rparr>\<rparr>"

definition example_edit_manager :: SessionManager where
  "example_edit_manager =
     \<lparr>mode = EDIT,
      sessions = [(''s1'', example_orphan_session),
                  (''s2'', example_session\<lparr>app_file_manager_path := Some ''/nb/b.py''\<rparr>),
                  (''s3'', example_dead_session)],
      watch = False\<rparr>"

definition example_edit_manager_two :: SessionManager where
  "example_edit_manager_two =
     \<lparr>mode = EDIT,
      sessions = [(''s1'', example_orphan_session), (''s2'', example_session)],
      watch = False\<rparr>"

section \<open>Properties of the session cache\<close>

lemma list_ex_zip_neq:
  "length xs = length ys \<Longrightarrow>
   list_ex (\<lambda>(code, cell). f code \<noteq> g cell) (zip xs ys) \<longleftrightarrow> map f xs \<noteq> map g ys"
  by (induction xs ys rule: list_induct2) auto

lemma is_cache_hit_map:
  "is_cache_hit md5 doc key \<longleftrightarrow>
     length (key_codes key) = length (cells doc) \<and>
     map (hash_code md5) (key_codes key) = map code_hash (cells doc) \<and>
     marimo_version key = metadata_marimo_version doc"
  by (auto simp: is_cache_hit_def list_ex_zip_neq)

lemma is_cache_hit_nth:
  "is_cache_hit md5 doc key \<longleftrightarrow>
     length (key_codes key) = length (cells doc) \<and>
     (\<forall>i < length (key_codes key).
        hash_code md5 (key_codes key ! i) = code_hash (cells doc ! i)) \<and>
     marimo_version key = metadata_marimo_version doc"
  unfolding is_cache_hit_map by (auto simp: list_eq_iff_nth_eq)

lemma hit_change_code:
  assumes "is_cache_hit md5 doc key" and "i < length (key_codes key)"
    and "hash_code md5 c \<noteq> hash_code md5 (key_codes key ! i)"
  shows "\<not> is_cache_hit md5 doc (key\<lparr>key_codes := (key_codes key)[i := c]\<rparr>)"
proof
  assume h: "is_cache_hit md5 doc (key\<lparr>key_codes := (key_codes key)[i := c]\<rparr>)"
  have "hash_code md5 (key_codes key ! i) = code_hash (cells doc ! i)"
    using assms(1,2) by (simp add: is_cache_hit_nth)
  moreover have "hash_code md5 ((key_codes key)[i := c] ! i) = code_hash (cells doc ! i)"
  proof -
    have "\<forall>j < length ((key_codes key)[i := c]).
            hash_code md5 ((key_codes key)[i := c] ! j) = code_hash (cells doc ! j)"
      using h by (simp add: is_cache_hit_nth)
    then show ?thesis using assms(2) by (metis length_list_update)
  qed
  ultimately show False using assms(2,3) by simp
qed

lemma hit_remove_cell:
  assumes "is_cache_hit md5 doc key" and "i < length (key_codes key)"
  shows "\<not> is_cache_hit md5 doc
           (key\<lparr>key_codes := take i (key_codes key) @ drop (Suc i) (key_codes key)\<rparr>)"
  using assms by (auto simp: is_cache_hit_nth)

lemma hit_change_version:
  assumes "is_cache_hit md5 doc key" and "v \<noteq> marimo_version key"
  shows "\<not> is_cache_hit md5 doc (key\<lparr>marimo_version := v\<rparr>)"
  using assms by (auto simp: is_cache_hit_nth)

text \<open>
  C2. \<^verbatim>\<open>is_cache_hit\<close> is true exactly when the key has as many codes as the
  document has cells, the hash of every code equals the \<^verbatim>\<open>code_hash\<close> of the
  cell at the same position, and the version of the key equals the version recorded in the
  document. Hence a different number of cells, one position whose hashes differ, or a
  different version each give a miss; and from a hit, replacing one code by a code with
  another hash, removing one code, or changing the version gives a miss.
\<close>

theorem is_cache_hit_iff_all_match:
  "(is_cache_hit md5 doc key \<longleftrightarrow>
      length (key_codes key) = length (cells doc) \<and>
      (\<forall>i < length (key_codes key).
         hash_code md5 (key_codes key ! i) = code_hash (cells doc ! i)) \<and>
      marimo_version key = metadata_marimo_version doc)
   \<and> (length (key_codes key) \<noteq> length (cells doc) \<longrightarrow> \<not> is_cache_hit md5 doc key)
   \<and> (\<forall>i. i < length (key_codes key) \<and> i < length (cells doc) \<and>
          hash_code md5 (key_codes key ! i) \<noteq> code_hash (cells doc ! i)
          \<longrightarrow> \<not> is_cache_hit md5 doc key)
   \<and> (marimo_version key \<noteq> metadata_marimo_version doc \<longrightarrow> \<not> is_cache_hit md5 doc key)
   \<and> (\<forall>i c. is_cache_hit md5 doc key \<and> i < length (key_codes key) \<and>
          hash_code md5 c \<noteq> hash_code md5 (key_codes key ! i)
          \<longrightarrow> \<not> is_cache_hit md5 doc (key\<lparr>key_codes := (key_codes key)[i := c]\<rparr>))
   \<and> (\<forall>i. is_cache_hit md5 doc key \<and> i < length (key_codes key)
          \<longrightarrow> \<not> is_cache_hit md5 doc
                (key\<lparr>key_codes := take i (key_codes key) @ drop (Suc i) (key_codes key)\<rparr>))
   \<and> (\<forall>v. is_cache_hit md5 doc key \<and> v \<noteq> marimo_version key
          \<longrightarrow> \<not> is_cache_hit md5 doc (key\<lparr>marimo_version := v\<rparr>))"
proof (intro conjI)
  show "\<forall>i c. is_cache_hit md5 doc key \<and> i < length (key_codes key) \<and>
          hash_code md5 c \<noteq> hash_code md5 (key_codes key ! i)
          \<longrightarrow> \<not> is_cache_hit md5 doc (key\<lparr>key_codes := (key_codes key)[i := c]\<rparr>)"
    by (intro allI impI, elim conjE, rule hit_change_code)
  show "\<forall>i. is_cache_hit md5 doc key \<and> i < length (key_codes key)
          \<longrightarrow> \<not> is_cache_hit md5 doc
                (key\<lparr>key_codes := take i (key_codes key) @ drop (Suc i) (key_codes key)\<rparr>)"
    by (intro allI impI, elim conjE, rule hit_remove_cell)
  show "\<forall>v. is_cache_hit md5 doc key \<and> v \<noteq> marimo_version key
          \<longrightarrow> \<not> is_cache_hit md5 doc (key\<lparr>marimo_version := v\<rparr>)"
    by (intro allI impI, elim conjE, rule hit_change_version)
  show "is_cache_hit md5 doc key \<longleftrightarrow>
      length (key_codes key) = length (cells doc) \<and>
      (\<forall>i < length (key_codes key).
         hash_code md5 (key_codes key ! i) = code_hash (cells doc ! i)) \<and>
      marimo_version key = metadata_marimo_version doc"
    by (rule is_cache_hit_nth)
  show "length (key_codes key) \<noteq> length (cells doc) \<longrightarrow> \<not> is_cache_hit md5 doc key"
    by (simp add: is_cache_hit_nth)
  show "\<forall>i. i < length (key_codes key) \<and> i < length (cells doc) \<and>
          hash_code md5 (key_codes key ! i) \<noteq> code_hash (cells doc ! i)
          \<longrightarrow> \<not> is_cache_hit md5 doc key"
    by (auto simp: is_cache_hit_nth)
  show "marimo_version key \<noteq> metadata_marimo_version doc \<longrightarrow> \<not> is_cache_hit md5 doc key"
    by (simp add: is_cache_hit_nth)
qed

text \<open>
  A notebook with the cells \<^verbatim>\<open>x=1\<close> and \<^verbatim>\<open>y=x+1\<close>, with the digest
  replaced by a function that puts \<^verbatim>\<open>#\<close> in front of the text: the unchanged
  notebook is a hit; after the second cell is edited to \<^verbatim>\<open>y=x+2\<close> the hashes at
  position 1 differ and the cache misses.
\<close>

theorem is_cache_hit_iff_all_match_witness:
  "is_cache_hit (\<lambda>s. CHR ''#'' # s)
     \<lparr>version = ''1'', metadata_marimo_version = ''0.10.0'',
      cells = [\<lparr>cell_id = ''a'', code_hash = Some ''#x=1'', outputs = [], console = []\<rparr>,
               \<lparr>cell_id = ''b'', code_hash = Some ''#y=x+1'', outputs = [], console = []\<rparr>]\<rparr>
     \<lparr>key_codes = [Some ''x=1'', Some ''y=x+1''], marimo_version = ''0.10.0''\<rparr>
   \<and> (1::nat) < length [Some ''x=1'', Some ''y=x+2'']
   \<and> hash_code (\<lambda>s. CHR ''#'' # s) ([Some ''x=1'', Some ''y=x+2''] ! 1) \<noteq> Some ''#y=x+1''
   \<and> \<not> is_cache_hit (\<lambda>s. CHR ''#'' # s)
     \<lparr>version = ''1'', metadata_marimo_version = ''0.10.0'',
      cells = [\<lparr>cell_id = ''a'', code_hash = Some ''#x=1'', outputs = [], console = []\<rparr>,
               \<lparr>cell_id = ''b'', code_hash = Some ''#y=x+1'', outputs = [], console = []\<rparr>]\<rparr>
     \<lparr>key_codes = [Some ''x=1'', Some ''y=x+2''], marimo_version = ''0.10.0''\<rparr>"
  using is_cache_hit_iff_all_match
    [of "\<lambda>s. CHR ''#'' # s"
        "\<lparr>version = ''1'', metadata_marimo_version = ''0.10.0'',
          cells = [\<lparr>cell_id = ''a'', code_hash = Some ''#x=1'', outputs = [], console = []\<rparr>,
                   \<lparr>cell_id = ''b'', code_hash = Some ''#y=x+1'', outputs = [],
                    console = []\<rparr>]\<rparr>"
        "\<lparr>key_codes = [Some ''x=1'', Some ''y=x+1''], marimo_version = ''0.10.0''\<rparr>"]
    is_cache_hit_iff_all_match
    [of "\<lambda>s. CHR ''#'' # s"
        "\<lparr>version = ''1'', metadata_marimo_version = ''0.10.0'',
          cells = [\<lparr>cell_id = ''a'', code_hash = Some ''#x=1'', outputs = [], console = []\<rparr>,
                   \<lparr>cell_id = ''b'', code_hash = Some ''#y=x+1'', outputs = [],
                    console = []\<rparr>]\<rparr>"
        "\<lparr>key_codes = [Some ''x=1'', Some ''y=x+2''], marimo_version = ''0.10.0''\<rparr>"]
  by (simp add: hash_code_def nth_Cons' less_Suc_eq)

lemma hash_code_null: "hash_code md5 None = None" "hash_code md5 (Some '''') = None"
  by (simp_all add: hash_code_def)

text \<open>
  C10. The code hash of absent code and of the empty text is null. So a cached cell whose
  \<^verbatim>\<open>code_hash\<close> is null matches both: when the other cells (\<open>pre\<close> before,
  \<open>post\<close> after) and the version match, the key is a hit with \<^verbatim>\<open>None\<close> at
  that position and with the empty text at that position.
\<close>

theorem null_hash_matches_absent_and_empty_code:
  assumes "cells doc = cs1 @ c # cs2" and "code_hash c = None"
    and "length pre = length cs1"
    and "map (hash_code md5) pre = map code_hash cs1"
    and "map (hash_code md5) post = map code_hash cs2"
    and "v = metadata_marimo_version doc"
  shows "hash_code md5 None = None \<and> hash_code md5 (Some '''') = None
    \<and> is_cache_hit md5 doc \<lparr>key_codes = pre @ None # post, marimo_version = v\<rparr>
    \<and> is_cache_hit md5 doc \<lparr>key_codes = pre @ Some '''' # post, marimo_version = v\<rparr>"
proof -
  have "length post = length cs2"
    using assms(5) by (metis length_map)
  then show ?thesis
    using assms by (simp add: is_cache_hit_map hash_code_null)
qed

theorem null_hash_matches_absent_and_empty_code_witness:
  "is_cache_hit example_md5 example_doc
     \<lparr>key_codes = [Some ''x=1''] @ None # [], marimo_version = ''0.10.0''\<rparr>
   \<and> is_cache_hit example_md5 example_doc
     \<lparr>key_codes = [Some ''x=1''] @ Some '''' # [], marimo_version = ''0.10.0''\<rparr>"
proof -
  have 1: "cells example_doc =
      [\<lparr>cell_id = ''a'', code_hash = Some ''#x=1'',
           outputs = [DataOutput [(''text/plain'', ''1'')]],
           console = [StreamOutput Stdout ''hi'']\<rparr>] @
        \<lparr>cell_id = ''b'', code_hash = None, outputs = [], console = []\<rparr> # []"
    by (simp add: example_doc_def)
  have 2: "code_hash \<lparr>cell_id = ''b'', code_hash = None, outputs = [], console = []\<rparr> = None"
    by simp
  have 3: "length [Some ''x=1''] = length [\<lparr>cell_id = ''a'', code_hash = Some ''#x=1'',
           outputs = [DataOutput [(''text/plain'', ''1'')]],
           console = [StreamOutput Stdout ''hi'']\<rparr>]" by simp
  have 4: "map (hash_code example_md5) [Some ''x=1''] = map code_hash [\<lparr>cell_id = ''a'', code_hash = Some ''#x=1'',
           outputs = [DataOutput [(''text/plain'', ''1'')]],
           console = [StreamOutput Stdout ''hi'']\<rparr>]"
    by (simp add: hash_code_def example_md5_def)
  have 5: "map (hash_code example_md5) [] = map code_hash ([]::Cell list)" by simp
  have 6: "''0.10.0'' = metadata_marimo_version example_doc" by (simp add: example_doc_def)
  from null_hash_matches_absent_and_empty_code [OF 1 2 3 4 5 6]
  show ?thesis by blast
qed



section \<open>Properties of the room\<close>

text \<open>
  C3, as amended. When the room has a main consumer, \<^verbatim>\<open>add_consumer\<close> with
  \<^verbatim>\<open>main=True\<close> raises the assertion error and leaves the main-consumer slot as it
  was; the consumer and its disposable have been written to the two dictionaries by then.
\<close>

theorem add_second_main_consumer_raises_after_registering:
  assumes "main_consumer r \<noteq> None"
  shows "add_consumer r c d cid True =
     (Some (AssertionError ''Main session consumer already exists''),
      r\<lparr>consumers := AList.update c cid (consumers r),
        disposables := AList.update c d (disposables r)\<rparr>)
     \<and> main_consumer (snd (add_consumer r c d cid True)) = main_consumer r"
  using assms by (simp add: add_consumer_def Let_def)

text \<open>
  In the example room, whose main consumer is 1, adding consumer 4 as main raises, and
  consumer 4 is in both dictionaries afterwards.
\<close>

theorem add_second_main_consumer_raises_after_registering_witness:
  "main_consumer example_room \<noteq> None
   \<and> add_consumer example_room 4 40 ''new'' True =
     (Some (AssertionError ''Main session consumer already exists''),
      \<lparr>main_consumer = Some 1,
       consumers = [(1, ''main''), (2, ''kiosk''), (3, ''other''), (4, ''new'')],
       disposables = [(1, 10), (2, 20), (3, 30), (4, 40)]\<rparr>)"
proof -
  have h: "main_consumer example_room \<noteq> None" by (simp add: example_room_def)
  from add_second_main_consumer_raises_after_registering [OF h, of 4 40 "''new''"]
  show ?thesis using h by (simp add: example_room_def)
qed

text \<open>
  C3 as stated fails: in the example room the call raises, and both dictionaries differ
  from what they were before the call.
\<close>

theorem add_second_main_consumer_mutates_counterexample:
  "main_consumer example_room = Some 1
   \<and> fst (add_consumer example_room 4 40 ''new'' True)
       = Some (AssertionError ''Main session consumer already exists'')
   \<and> consumers (snd (add_consumer example_room 4 40 ''new'' True)) \<noteq> consumers example_room
   \<and> disposables (snd (add_consumer example_room 4 40 ''new'' True))
       \<noteq> disposables example_room"
  by (simp add: add_consumer_def example_room_def Let_def)

lemma broadcast_loop_filter:
  "broadcast_loop w cs operation ex =
     map (\<lambda>c. WriteOperation c operation)
       (filter (\<lambda>c. Some (consumer_id w c) \<noteq> ex \<and> consumer_connection_state w c = OPEN) cs)"
  by (induction cs) auto

text \<open>
  C5. \<^verbatim>\<open>broadcast\<close> writes the operation, in the order of the dictionary, to the
  consumers that are \<^verbatim>\<open>OPEN\<close> and whose consumer id is not
  \<^verbatim>\<open>except_consumer\<close>, and to no other: a consumer is written to exactly if it is
  in the room, open and not the excepted one, and only the given operation is written.
  With the keys of the dictionary distinct no consumer is written to twice. A room
  without consumers gets no write. The other consumers are passed over; the function has
  no exception.
\<close>

theorem broadcast_delivers_to_open_consumers_except_one:
  "broadcast w r operation ex =
     map (\<lambda>c. WriteOperation c operation)
       (filter (\<lambda>c. Some (consumer_id w c) \<noteq> ex \<and> consumer_connection_state w c = OPEN)
          (map fst (consumers r)))
   \<and> (WriteOperation c operation' \<in> set (broadcast w r operation ex) \<longleftrightarrow>
        operation' = operation \<and> c \<in> set (map fst (consumers r)) \<and>
        consumer_connection_state w c = OPEN \<and> Some (consumer_id w c) \<noteq> ex)
   \<and> (distinct (map fst (consumers r)) \<longrightarrow> distinct (broadcast w r operation ex))
   \<and> broadcast w (r\<lparr>consumers := []\<rparr>) operation ex = []"
  by (auto simp: broadcast_def broadcast_loop_filter distinct_map inj_on_def)

text \<open>
  In the example room a broadcast except \<^verbatim>\<open>main\<close> reaches consumer 2 only
  (consumer 3 is closed); without an exception it reaches 1 and 2.
\<close>

theorem broadcast_delivers_to_open_consumers_except_one_witness:
  "distinct (map fst (consumers example_room))
   \<and> broadcast example_consumers example_room Reload (Some ''main'')
       = [WriteOperation 2 Reload]
   \<and> broadcast example_consumers example_room Reload None
       = [WriteOperation 1 Reload, WriteOperation 2 Reload]
   \<and> distinct (broadcast example_consumers example_room Reload (Some ''main''))"
  using broadcast_delivers_to_open_consumers_except_one
     [of example_consumers example_room Reload "Some ''main''" 2 Reload]
    broadcast_delivers_to_open_consumers_except_one
     [of example_consumers example_room Reload None 2 Reload]
  by (simp add: example_room_def example_consumers_def)

text \<open>
  C8. For a consumer of the room that has a disposable, \<^verbatim>\<open>remove_consumer\<close>
  calls the stop hook and then the disposable, once each, also when the stop hook raises
  (the exception is then raised after the disposal); the consumer is removed from both
  dictionaries; the main-consumer slot is cleared if the consumer was the main consumer
  and is left as it was otherwise.
\<close>

theorem remove_consumer_stops_then_disposes_once:
  assumes "map_of (consumers r) c = Some cid" and "map_of (disposables r) c = Some d"
  shows "remove_consumer w r c =
     (if on_stop_raises w c then Some (ConsumerStopError c) else None,
      r\<lparr>main_consumer := (if main_consumer r = Some c then None else main_consumer r),
        consumers := AList.delete c (consumers r),
        disposables := AList.delete c (disposables r)\<rparr>,
      [OnStop c, Dispose d])
    \<and> map_of (consumers (fst (snd (remove_consumer w r c)))) c = None
    \<and> map_of (disposables (fst (snd (remove_consumer w r c)))) c = None"
  using assms by (auto simp: remove_consumer_def Let_def AList.delete_conv')

text \<open>
  In the example room, removing consumer 2, whose stop hook raises, still disposes of its
  disposable 20 and keeps the main consumer; removing consumer 1 clears the main slot.
\<close>

theorem remove_consumer_stops_then_disposes_once_witness:
  "map_of (consumers example_room) 2 = Some ''kiosk''
   \<and> map_of (disposables example_room) 2 = Some 20
   \<and> remove_consumer example_consumers example_room 2 =
       (Some (ConsumerStopError 2),
        \<lparr>main_consumer = Some 1, consumers = [(1, ''main''), (3, ''other'')],
         disposables = [(1, 10), (3, 30)]\<rparr>,
        [OnStop 2, Dispose 20])
   \<and> remove_consumer example_consumers example_room 1 =
       (None,
        \<lparr>main_consumer = None, consumers = [(2, ''kiosk''), (3, ''other'')],
         disposables = [(2, 20), (3, 30)]\<rparr>,
        [OnStop 1, Dispose 10])"
proof -
  have a: "map_of (consumers example_room) 2 = Some ''kiosk''"
    and b: "map_of (disposables example_room) 2 = Some 20"
    and c: "map_of (consumers example_room) 1 = Some ''main''"
    and d: "map_of (disposables example_room) 1 = Some 10"
    by (simp_all add: example_room_def)
  from remove_consumer_stops_then_disposes_once [OF a b, of example_consumers]
    remove_consumer_stops_then_disposes_once [OF c d, of example_consumers]
  show ?thesis using a b
    by (simp add: example_room_def example_consumers_def AList.delete_eq)
qed

section \<open>Properties of the session\<close>

text \<open>
  C6. \<^verbatim>\<open>put_control_request\<close> puts the request on the control queue first and
  records it in the session view last. A set-UI-element-value request is also put on the
  UI-value queue, and no other request is. A multi-cell execution request broadcasts
  \<^verbatim>\<open>UpdateCellCodes\<close> with \<^verbatim>\<open>code_is_stale=False\<close> to the room, except
  the originator, and then, when it has exactly one cell id, \<^verbatim>\<open>FocusCell\<close> of that
  cell. Any other request makes no call between the put and the record.
\<close>

theorem put_control_request_effects:
  "control_queue (queue_manager (fst (put_control_request w s request from_id)))
     = control_queue (queue_manager s) @ [request]
   \<and> control_requests (s_session_view (fst (put_control_request w s request from_id)))
     = control_requests (s_session_view s) @ [request]
   \<and> hd (snd (put_control_request w s request from_id)) = ControlQueuePut request
   \<and> last (snd (put_control_request w s request from_id)) = AddControlRequest request
   \<and> room (fst (put_control_request w s request from_id)) = room s
   \<and> (\<forall>ids vals tok. request = SetUIElementValueRequest ids vals tok \<longrightarrow>
        set_ui_element_queue (queue_manager (fst (put_control_request w s request from_id)))
          = set_ui_element_queue (queue_manager s) @ [request] \<and>
        snd (put_control_request w s request from_id)
          = [ControlQueuePut request, SetUIElementQueuePut request,
             AddControlRequest request])
   \<and> ((\<forall>ids vals tok. request \<noteq> SetUIElementValueRequest ids vals tok) \<longrightarrow>
        set_ui_element_queue (queue_manager (fst (put_control_request w s request from_id)))
          = set_ui_element_queue (queue_manager s))
   \<and> (\<forall>ids cs. request = ExecuteMultipleRequest ids cs \<longrightarrow>
        snd (put_control_request w s request from_id)
          = [ControlQueuePut request]
            @ broadcast w (room s) (UpdateCellCodes ids cs False) from_id
            @ (if length ids = 1
               then broadcast w (room s) (FocusCell (ids ! 0)) from_id else [])
            @ [AddControlRequest request])
   \<and> ((\<forall>ids vals tok. request \<noteq> SetUIElementValueRequest ids vals tok) \<and>
       (\<forall>ids cs. request \<noteq> ExecuteMultipleRequest ids cs) \<longrightarrow>
        snd (put_control_request w s request from_id)
          = [ControlQueuePut request, AddControlRequest request])"
  by (cases request)
     (auto simp: put_control_request_def add_control_request_def Let_def)

text \<open>
  In the example session, a request from \<^verbatim>\<open>main\<close> to run the one cell
  \<^verbatim>\<open>a\<close> reaches consumer 2 as a code update and a focus notice (consumer 3 is
  closed); a request for two cells brings no focus notice; a UI value goes to both queues.
\<close>

theorem put_control_request_effects_witness:
  "snd (put_control_request example_consumers example_session
          (ExecuteMultipleRequest [''a''] [''x=2'']) (Some ''main''))
     = [ControlQueuePut (ExecuteMultipleRequest [''a''] [''x=2'']),
        WriteOperation 2 (UpdateCellCodes [''a''] [''x=2''] False),
        WriteOperation 2 (FocusCell ''a''),
        AddControlRequest (ExecuteMultipleRequest [''a''] [''x=2''])]
   \<and> snd (put_control_request example_consumers example_session
          (ExecuteMultipleRequest [''a'', ''b''] [''x=2'', ''y=3'']) (Some ''main''))
     = [ControlQueuePut (ExecuteMultipleRequest [''a'', ''b''] [''x=2'', ''y=3'']),
        WriteOperation 2 (UpdateCellCodes [''a'', ''b''] [''x=2'', ''y=3''] False),
        AddControlRequest (ExecuteMultipleRequest [''a'', ''b''] [''x=2'', ''y=3''])]
   \<and> set_ui_element_queue (queue_manager (fst
         (put_control_request example_consumers example_session
            (SetUIElementValueRequest [''slider''] [''3''] ''t'') None)))
     = [SetUIElementValueRequest [''slider''] [''3''] ''t'']
   \<and> snd (put_control_request example_consumers example_session StopRequest None)
     = [ControlQueuePut StopRequest, AddControlRequest StopRequest]"
  using put_control_request_effects
      [of example_consumers example_session
          "ExecuteMultipleRequest [''a''] [''x=2'']" "Some ''main''"]
    put_control_request_effects
      [of example_consumers example_session
          "ExecuteMultipleRequest [''a'', ''b''] [''x=2'', ''y=3'']" "Some ''main''"]
    put_control_request_effects
      [of example_consumers example_session
          "SetUIElementValueRequest [''slider''] [''3''] ''t''" None]
    put_control_request_effects
      [of example_consumers example_session StopRequest None]
  by (simp add: example_session_def example_room_def example_consumers_def broadcast_def)

lemma Room_close_loop_ok:
  "distinct cs \<Longrightarrow>
   (\<forall>c \<in> set cs. map_of ds c \<noteq> None \<and> \<not> on_stop_raises w c) \<Longrightarrow>
   Room_close_loop w cs ds =
     (None, filter (\<lambda>(k, v). k \<notin> set cs) ds,
      concat (map (\<lambda>c. [OnStop c, Dispose (the (map_of ds c))]) cs))"
proof (induction cs arbitrary: ds)
  case Nil
  then show ?case by simp
next
  case (Cons c cs)
  from Cons.prems obtain d where d: "map_of ds c = Some d" by auto
  have dist: "distinct cs" and notin: "c \<notin> set cs" using Cons.prems by auto
  have rest: "\<forall>c' \<in> set cs. map_of (AList.delete c ds) c' \<noteq> None \<and> \<not> on_stop_raises w c'"
    using Cons.prems notin by (auto simp: AList.delete_conv)
  have same: "map (\<lambda>c'. [OnStop c', Dispose (the (map_of (AList.delete c ds) c'))]) cs
            = map (\<lambda>c'. [OnStop c', Dispose (the (map_of ds c'))]) cs"
    using notin by (intro map_cong) (auto simp: AList.delete_conv)
  have filt: "filter (\<lambda>(k, v). k \<notin> set cs) (AList.delete c ds)
            = filter (\<lambda>(k, v). k \<notin> set (c # cs)) ds"
    by (induction ds) (auto simp: AList.delete_eq)
  have nr: "\<not> on_stop_raises w c" using Cons.prems by simp
  show ?case
    using Cons.IH [OF dist rest] d nr same filt by (simp add: Let_def)
qed

lemma Room_close_ok:
  assumes "distinct (map fst (consumers r))"
    and "\<forall>c \<in> set (map fst (consumers r)).
           map_of (disposables r) c \<noteq> None \<and> \<not> on_stop_raises w c"
  shows "Room_close w r =
     (None,
      r\<lparr>disposables := filter (\<lambda>(k, v). k \<notin> set (map fst (consumers r))) (disposables r),
        consumers := [], main_consumer := None\<rparr>,
      concat (map (\<lambda>c. [OnStop c, Dispose (the (map_of (disposables r) c))])
                (map fst (consumers r))))"
  using Room_close_loop_ok [OF assms] by (simp add: Room_close_def)

lemma Session_close_closed: "closed (fst (snd (Session_close w s)))"
  by (auto simp: Session_close_def Let_def split: prod.splits option.splits)

lemma Session_close_again:
  "closed s \<Longrightarrow> Session_close w s = (None, s, [])"
  by (simp add: Session_close_def)

lemma wait_for_profile_now:
  "file_exists n \<Longrightarrow> wait_for_profile file_exists n = Some n"
  by (subst wait_for_profile.simps) simp

lemma wait_for_profile_Some:
  "wait_for_profile file_exists n = Some m \<Longrightarrow> file_exists m \<and> n \<le> m"
  by (rule wait_for_profile.raw_induct [where P = "\<lambda>ex n m. ex m \<and> n \<le> m"])
     (auto split: if_splits dest: Suc_leD)

lemma wait_for_profile_written:
  "profile_written_after km = Some k \<Longrightarrow> n \<le> k \<Longrightarrow>
   wait_for_profile (profile_exists km) n = Some k"
proof (induction "k - n" arbitrary: n)
  case 0
  then show ?case by (simp add: wait_for_profile_now profile_exists_def)
next
  case (Suc d)
  then have "\<not> profile_exists km n" by (simp add: profile_exists_def)
  moreover have "wait_for_profile (profile_exists km) (Suc n) = Some k"
    using Suc by simp
  ultimately show ?case by (subst wait_for_profile.simps) simp
qed

lemma wait_for_profile_never:
  assumes "profile_written_after km = None"
  shows "wait_for_profile (profile_exists km) n = None"
proof (cases "wait_for_profile (profile_exists km) n")
  case None
  then show ?thesis .
next
  case (Some m)
  then have "profile_exists km m" using wait_for_profile_Some by blast
  then show ?thesis using assms by (simp add: profile_exists_def)
qed

text \<open>
  The wait of \<^verbatim>\<open>close_kernel\<close>: with a profile path and a live process the call
  returns when the profile file is written at some time, and never returns when it is
  never written.
\<close>

lemma close_kernel_profile_written:
  assumes "kernel_task km = Some (Process True)" and "profile_path km = Some p"
    and "profile_written_after km = Some k"
  shows "close_kernel km qm =
     (None, km\<lparr>kernel_task := Some (Process False)\<rparr>,
      fst (close_queues (qm\<lparr>control_queue := control_queue qm @ [StopRequest]\<rparr>)),
      [ControlQueuePut StopRequest]
      @ snd (close_queues (qm\<lparr>control_queue := control_queue qm @ [StopRequest]\<rparr>))
      @ [KernelTerminate] @ (if read_conn km then [ReadConnClose] else []))"
  using assms wait_for_profile_written [OF assms(3), of 0]
  by (simp add: close_kernel_def split: prod.splits)

lemma close_kernel_profile_never_written:
  assumes "kernel_task km = Some (Process True)" and "profile_path km = Some p"
    and "profile_written_after km = None"
  shows "close_kernel km qm =
     (Some Hangs, km, qm\<lparr>control_queue := control_queue qm @ [StopRequest]\<rparr>,
      [ControlQueuePut StopRequest])"
  using assms wait_for_profile_never [OF assms(3), of 0]
  by (simp add: close_kernel_def)

text \<open>
  What \<^verbatim>\<open>Session.close\<close> does on a session that is not closed, when the room is
  a well-formed dictionary in which every consumer has its disposable, no stop hook
  raises and \<^verbatim>\<open>close_kernel\<close> returns: it raises nothing, and its calls are, for
  each consumer, the stop hook and the disposable, then the stop of the distributor, the
  cancelling of the heartbeat task if there is one, the stop of the cache writer if one is
  running, and the calls of \<^verbatim>\<open>close_kernel\<close>.
\<close>

lemma Session_close_when_hooks_return:
  assumes "\<not> closed s"
    and "distinct (map fst (consumers (room s)))"
    and "\<forall>c \<in> set (map fst (consumers (room s))).
           map_of (disposables (room s)) c \<noteq> None \<and> \<not> on_stop_raises w c"
    and "fst (close_kernel (kernel_manager s) (queue_manager s)) = None"
  shows "fst (Session_close w s) = None"
    and "snd (snd (Session_close w s)) =
       concat (map (\<lambda>c. [OnStop c, Dispose (the (map_of (disposables (room s)) c))])
                 (map fst (consumers (room s))))
       @ [DistributorStop]
       @ (if heartbeat_task s = None then [] else [HeartbeatCancel])
       @ (case session_cache_manager s of
            None \<Rightarrow> []
          | Some m \<Rightarrow> if session_cache_writer m = None then [] else [CacheWriterStop])
       @ snd (snd (snd (close_kernel (kernel_manager s) (queue_manager s))))"
  using assms(1,4) Room_close_ok [OF assms(2,3)]
  by (auto simp: Session_close_def Let_def SessionCacheManager_stop_def
           split: prod.splits option.splits)

text \<open>
  C4. \<^verbatim>\<open>Session.close\<close> is claimed idempotent for every session: two calls do not
  raise, leave the session \<^verbatim>\<open>CLOSED\<close> and release each resource exactly once. The
  second call does return at once on every session. But in the example session the stop
  hook of consumer 2 raises: the first call sets the closed flag, then raises out of
  \<^verbatim>\<open>Room.close\<close> after the stop hook of consumer 2, so that consumer 3 is not
  stopped and the distributor, the heartbeat task, the cache writer and the kernel are
  not released; the session reports \<^verbatim>\<open>CLOSED\<close>, and the second call makes no call,
  so they are never released. \<^verbatim>\<open>Room.remove_consumer\<close> guards the same hook with
  \<^verbatim>\<open>try\<close>/\<^verbatim>\<open>finally\<close>; \<^verbatim>\<open>Room.close\<close> does not.
\<close>

theorem Session_close_raising_stop_hook_leaks_kernel:
  "\<not> closed example_session
   \<and> on_stop_raises example_consumers 2
   \<and> Session_close example_consumers example_session =
       (Some (ConsumerStopError 2),
        example_session
          \<lparr>closed := True,
           room := \<lparr>main_consumer = Some 1,
                    consumers = [(1, ''main''), (2, ''kiosk''), (3, ''other'')],
                    disposables = [(3, 30)]\<rparr>\<rparr>,
        [OnStop 1, Dispose 10, OnStop 2])
   \<and> kernel_task (kernel_manager
        (fst (snd (Session_close example_consumers example_session))))
       = Some (Process True)
   \<and> distributor_running (fst (snd (Session_close example_consumers example_session)))
   \<and> heartbeat_task (fst (snd (Session_close example_consumers example_session)))
       = Some False
   \<and> Session_close example_consumers
        (fst (snd (Session_close example_consumers example_session)))
       = (None, fst (snd (Session_close example_consumers example_session)), [])
   \<and> connection_state example_consumers
        (fst (snd (Session_close example_consumers example_session))) = CLOSED"
proof -
  have first: "Session_close example_consumers example_session =
       (Some (ConsumerStopError 2),
        example_session
          \<lparr>closed := True,
           room := \<lparr>main_consumer = Some 1,
                    consumers = [(1, ''main''), (2, ''kiosk''), (3, ''other'')],
                    disposables = [(3, 30)]\<rparr>\<rparr>,
        [OnStop 1, Dispose 10, OnStop 2])"
    by (simp add: Session_close_def Room_close_def example_session_def example_room_def
          example_consumers_def Let_def AList.delete_eq)
  have c: "closed (fst (snd (Session_close example_consumers example_session)))"
    by (rule Session_close_closed)
  have again: "Session_close example_consumers
        (fst (snd (Session_close example_consumers example_session)))
       = (None, fst (snd (Session_close example_consumers example_session)), [])"
    using c by (rule Session_close_again)
  have st: "connection_state example_consumers
        (fst (snd (Session_close example_consumers example_session))) = CLOSED"
    using c by (simp add: connection_state_def)
  have rest: "kernel_task (kernel_manager
        (fst (snd (Session_close example_consumers example_session))))
       = Some (Process True)"
    "distributor_running (fst (snd (Session_close example_consumers example_session)))"
    "heartbeat_task (fst (snd (Session_close example_consumers example_session)))
       = Some False"
    unfolding first by (simp_all add: example_session_def)
  have pre: "\<not> closed example_session" "on_stop_raises example_consumers 2"
    by (simp_all add: example_session_def example_consumers_def)
  show ?thesis
    by (intro conjI) (fact pre first rest again st)+
qed

section \<open>Properties of the session manager\<close>

lemma find_Some_mem: "find P xs = Some x \<Longrightarrow> x \<in> set xs \<and> P x"
  by (induction xs) (auto split: if_splits)

lemma get_session_cases:
  "get_session m sid = Some s \<Longrightarrow>
     map_of (sessions m) sid = Some s \<or>
     (map_of (sessions m) sid = None \<and>
      (\<exists>k. (k, s) \<in> set (sessions m) \<and> sid \<in> set (map snd (consumers (room s)))))"
  by (auto simp: get_session_def get_session_entry_def
           split: option.splits dest!: find_Some_mem)

lemma get_session_stored:
  "map_of (sessions m) sid = Some s \<Longrightarrow> get_session m sid = Some s"
  by (simp add: get_session_def get_session_entry_def)

lemma get_session_no_consumer:
  "map_of (sessions m) sid = None \<Longrightarrow>
   \<forall>(k, s) \<in> set (sessions m). sid \<notin> set (map snd (consumers (room s))) \<Longrightarrow>
   get_session m sid = None"
  by (auto simp: get_session_def get_session_entry_def find_None_iff)

text \<open>
  What \<^verbatim>\<open>maybe_resume_session\<close> does in run mode: it raises nothing, leaves the
  dictionary of sessions as it is and makes no call. It returns a session exactly when
  \<^verbatim>\<open>get_session(new_session_id)\<close> finds one and that session is
  \<^verbatim>\<open>ORPHANED\<close>; the session found is the one stored under the id or, when none is
  stored under it, a session whose room has a consumer with that consumer id. When no
  room has such a consumer, a session is returned only if it is stored under the id.
\<close>

lemma run_mode_resumes_session_found_by_get_session:
  assumes "mode m = RUN"
  shows "maybe_resume_session w abspath m new_id file_key =
      ((case get_session m new_id of
          None \<Rightarrow> Inr None
        | Some s \<Rightarrow> if connection_state w s = ORPHANED then Inr (Some s) else Inr None),
       m, [])
    \<and> (\<forall>s. fst (maybe_resume_session w abspath m new_id file_key) = Inr (Some s) \<longrightarrow>
          connection_state w s = ORPHANED \<and>
          (map_of (sessions m) new_id = Some s \<or>
           (map_of (sessions m) new_id = None \<and>
            (\<exists>k. (k, s) \<in> set (sessions m) \<and>
                 new_id \<in> set (map snd (consumers (room s)))))))
    \<and> (\<forall>s. map_of (sessions m) new_id = Some s \<longrightarrow>
          fst (maybe_resume_session w abspath m new_id file_key) =
            (if connection_state w s = ORPHANED then Inr (Some s) else Inr None))
    \<and> ((\<forall>(k, s) \<in> set (sessions m). new_id \<notin> set (map snd (consumers (room s)))) \<longrightarrow>
          (\<forall>s. fst (maybe_resume_session w abspath m new_id file_key) = Inr (Some s) \<longrightarrow>
             map_of (sessions m) new_id = Some s))"
proof -
  have eq: "maybe_resume_session w abspath m new_id file_key =
      ((case get_session m new_id of
          None \<Rightarrow> Inr None
        | Some s \<Rightarrow> if connection_state w s = ORPHANED then Inr (Some s) else Inr None),
       m, [])"
    using assms by (simp add: maybe_resume_session_def split: option.splits)
  have found: "connection_state w s = ORPHANED \<and> get_session m new_id = Some s"
    if "fst (maybe_resume_session w abspath m new_id file_key) = Inr (Some s)" for s
    using that unfolding eq by (auto split: option.splits if_splits)
  have stored: "fst (maybe_resume_session w abspath m new_id file_key) =
            (if connection_state w s = ORPHANED then Inr (Some s) else Inr None)"
    if "map_of (sessions m) new_id = Some s" for s
    unfolding eq using get_session_stored [OF that] by simp
  have only: "map_of (sessions m) new_id = Some s"
    if "\<forall>(k, s) \<in> set (sessions m). new_id \<notin> set (map snd (consumers (room s)))"
      and "fst (maybe_resume_session w abspath m new_id file_key) = Inr (Some s)" for s
    using get_session_cases [of m new_id s] found [OF that(2)] that(1) by auto
  show ?thesis
    using eq found stored only get_session_cases [of m new_id] by blast
qed

text \<open>
  C7. In run mode a session is claimed to be resumed only if it is stored under the new
  session id and is \<^verbatim>\<open>ORPHANED\<close>, with no resumption across ids; the comment in
  the source says the same (only resume the session if it is orphaned and has the same
  session id). The code calls \<^verbatim>\<open>get_session\<close>, which falls back to a search of
  the consumer ids of every room. In the example manager no session is stored under the
  id \<^verbatim>\<open>kiosk\<close>, yet the orphaned session stored under \<^verbatim>\<open>s1\<close>, whose room
  has a consumer with the consumer id \<^verbatim>\<open>kiosk\<close>, is returned for it.
\<close>

theorem run_mode_resumes_session_stored_under_another_id:
  "mode example_run_manager = RUN
   \<and> map_of (sessions example_run_manager) ''kiosk'' = None
   \<and> map_of (sessions example_run_manager) ''s1'' = Some example_orphan_session
   \<and> connection_state example_consumers example_orphan_session = ORPHANED
   \<and> get_session example_run_manager ''kiosk'' = Some example_orphan_session
   \<and> maybe_resume_session example_consumers (\<lambda>p. p) example_run_manager
        ''kiosk'' ''a.py''
       = (Inr (Some example_orphan_session), example_run_manager, [])"
  by (simp add: maybe_resume_session_def get_session_def get_session_entry_def
        connection_state_def example_run_manager_def example_orphan_session_def
        example_session_def)

lemma close_session_stored:
  assumes "map_of (sessions m) k = Some s" and "fst (Session_close w s) = None"
  shows "\<exists>evs. close_session w m k =
           (None, True, m\<lparr>sessions := AList.delete k (sessions m)\<rparr>, evs)"
proof -
  obtain s1 evs1 where c: "Session_close w s = (None, s1, evs1)"
    using assms(2) by (cases "Session_close w s") auto
  have e: "get_session_entry m k = Some (k, s)"
    using assms(1) by (simp add: get_session_entry_def)
  show ?thesis
    using c e by (simp add: close_session_def Let_def AList.update_conv' AList.delete_update_same)
qed

lemma cleanup_loop_ok:
  assumes "distinct (map fst snap)"
    and "\<forall>(k, s) \<in> set snap. map_of (sessions m) k = Some s"
    and "\<forall>(k, s) \<in> set snap. kernel_dead s \<longrightarrow> fst (Session_close w s) = None"
  shows "\<exists>evs. cleanup_loop w snap m =
     (None,
      m\<lparr>sessions :=
          filter (\<lambda>(k, s). k \<notin> fst ` {x \<in> set snap. kernel_dead (snd x)}) (sessions m)\<rparr>,
      evs)"
  using assms
proof (induction snap arbitrary: m)
  case Nil
  then show ?case by simp
next
  case (Cons a snap)
  obtain k s where a: "a = (k, s)" by (cases a)
  have dist: "distinct (map fst snap)" and knotin: "k \<notin> fst ` set snap"
    using Cons.prems(1) a by auto
  have ok: "\<forall>(k, s) \<in> set snap. kernel_dead s \<longrightarrow> fst (Session_close w s) = None"
    using Cons.prems(3) by auto
  show ?case
  proof (cases "kernel_dead s")
    case False
    have st: "\<forall>(k, s) \<in> set snap. map_of (sessions m) k = Some s"
      using Cons.prems(2) by simp
    have "{x \<in> set (a # snap). kernel_dead (snd x)} = {x \<in> set snap. kernel_dead (snd x)}"
      using False a by auto
    then show ?thesis
      using Cons.IH [OF dist st ok] False a by simp
  next
    case True
    have stored: "map_of (sessions m) k = Some s" using Cons.prems(2) a by auto
    have closes: "fst (Session_close w s) = None" using Cons.prems(3) a True by auto
    obtain evs where cs: "close_session w m k =
           (None, True, m\<lparr>sessions := AList.delete k (sessions m)\<rparr>, evs)"
      using close_session_stored [OF stored closes] by blast
    let ?m1 = "m\<lparr>sessions := AList.delete k (sessions m)\<rparr>"
    have st: "\<forall>(k', s') \<in> set snap. map_of (sessions ?m1) k' = Some s'"
    proof (clarify)
      fix k' s' assume mem: "(k', s') \<in> set snap"
      then have ne: "k' \<noteq> k" using knotin by force
      have "map_of (sessions m) k' = Some s'" using Cons.prems(2) mem by fastforce
      then show "map_of (sessions ?m1) k' = Some s'"
        using ne by (simp add: AList.delete_conv)
    qed
    obtain evs1 where ih: "cleanup_loop w snap ?m1 =
       (None,
        ?m1\<lparr>sessions :=
          filter (\<lambda>(k, s). k \<notin> fst ` {x \<in> set snap. kernel_dead (snd x)}) (sessions ?m1)\<rparr>,
        evs1)"
      using Cons.IH [OF dist st ok] by blast
    have filt: "filter (\<lambda>(k, s). k \<notin> fst ` {x \<in> set snap. kernel_dead (snd x)})
                  (AList.delete k (sessions m))
              = filter (\<lambda>(k, s). k \<notin> fst ` {x \<in> set (a # snap). kernel_dead (snd x)})
                  (sessions m)"
    proof -
      have "fst ` {x \<in> set (a # snap). kernel_dead (snd x)}
              = insert k (fst ` {x \<in> set snap. kernel_dead (snd x)})"
        using a True by (force simp: image_iff)
      then show ?thesis
        unfolding AList.delete_eq filter_filter
        by (intro filter_cong) auto
    qed
    show ?thesis
      using cs ih filt a True by simp
  qed
qed

lemma cleanup_loop_sessions:
  assumes dict: "distinct (map fst (sessions m))"
    and ok: "\<forall>(k, s) \<in> set (sessions m). kernel_dead s \<longrightarrow> fst (Session_close w s) = None"
  shows "\<exists>evs. cleanup_loop w (sessions m) m =
     (None, m\<lparr>sessions := filter (\<lambda>(k, s). \<not> kernel_dead s) (sessions m)\<rparr>, evs)"
proof -
  have st: "\<forall>(k, s) \<in> set (sessions m). map_of (sessions m) k = Some s"
    using dict by auto
  have "filter (\<lambda>(k, s). k \<notin> fst ` {x \<in> set (sessions m). kernel_dead (snd x)}) (sessions m)
      = filter (\<lambda>(k, s). \<not> kernel_dead s) (sessions m)"
  proof (intro filter_cong refl)
    fix x assume x: "x \<in> set (sessions m)"
    obtain k s where ks: "x = (k, s)" by (cases x)
    have "k \<in> fst ` {x \<in> set (sessions m). kernel_dead (snd x)} \<longleftrightarrow> kernel_dead s"
    proof
      assume "k \<in> fst ` {x \<in> set (sessions m). kernel_dead (snd x)}"
      then obtain s' where s': "(k, s') \<in> set (sessions m)" "kernel_dead s'" by force
      have "s' = s" using dict s'(1) x ks by (metis eq_key_imp_eq_value)
      then show "kernel_dead s" using s'(2) by simp
    next
      assume "kernel_dead s"
      then show "k \<in> fst ` {x \<in> set (sessions m). kernel_dead (snd x)}"
        using x ks by force
    qed
    then show "(case x of (k, s) \<Rightarrow> k \<notin> fst ` {x \<in> set (sessions m). kernel_dead (snd x)})
             = (case x of (k, s) \<Rightarrow> \<not> kernel_dead s)"
      using ks by simp
  qed
  then show ?thesis using cleanup_loop_ok [OF dict st ok] by simp
qed

lemma filter_update_single:
  "\<forall>x \<in> set xs. \<not> Q x \<Longrightarrow> Q (k, v) \<Longrightarrow> filter Q (AList.update k v xs) = [(k, v)]"
  by (induction xs) auto

lemma filter_single_others:
  assumes "filter P xs = [y]" and "x \<in> set xs" and "P x"
  shows "x = y"
proof -
  have "x \<in> set (filter P xs)" using assms(2,3) by simp
  then show ?thesis using assms(1) by simp
qed

text \<open>
  C1. Edit mode. The function first closes and removes the sessions whose kernel is dead;
  \<open>live\<close> is the dictionary of the remaining sessions and \<open>same\<close> its entries
  whose file path is the resolved path of the file key. The dictionary has distinct keys,
  and closing the dead sessions raises nothing. Then: with two or more entries in
  \<open>same\<close> the function raises \<^verbatim>\<open>InvalidSessionException\<close>; with exactly one
  entry, whose session is \<^verbatim>\<open>ORPHANED\<close>, it returns that session, stores it under
  the new session id and removes it under the old one, so that the dictionary has exactly
  one entry for that path, under the new id; in every other case it returns
  \<^verbatim>\<open>None\<close> and the dictionary is \<open>live\<close>.
\<close>

theorem edit_mode_resumption:
  fixes m :: SessionManager and w :: Consumers and abspath :: "string \<Rightarrow> string"
    and new_id :: SessionId and file_key :: string
  defines "live \<equiv> filter (\<lambda>(k, s). \<not> kernel_dead s) (sessions m)"
  defines "same \<equiv>
     filter (\<lambda>(k, s). app_file_manager_path s = Some (abspath file_key)) live"
  defines "res \<equiv> maybe_resume_session w abspath m new_id file_key"
  assumes edit: "mode m = EDIT"
    and dict: "distinct (map fst (sessions m))"
    and ok: "\<forall>(k, s) \<in> set (sessions m). kernel_dead s \<longrightarrow> fst (Session_close w s) = None"
  shows "(2 \<le> length same \<longrightarrow>
            fst res = Inl (InvalidSessionException
                             ''Only one session should exist while editing''))
    \<and> (\<forall>sid s. same = [(sid, s)] \<and> connection_state w s = ORPHANED \<longrightarrow>
          fst res = Inr (Some s)
          \<and> sessions (fst (snd res))
              = (if new_id = sid then live
                 else AList.delete sid (AList.update new_id s live))
          \<and> map_of (sessions (fst (snd res))) new_id = Some s
          \<and> (sid \<noteq> new_id \<longrightarrow> map_of (sessions (fst (snd res))) sid = None)
          \<and> filter (\<lambda>(k, s). app_file_manager_path s = Some (abspath file_key))
               (sessions (fst (snd res))) = [(new_id, s)])
    \<and> (length same < 2 \<and>
        \<not> (\<exists>sid s. same = [(sid, s)] \<and> connection_state w s = ORPHANED) \<longrightarrow>
          fst res = Inr None \<and> sessions (fst (snd res)) = live)"
proof -
  let ?P = "\<lambda>(k, s). app_file_manager_path s = Some (abspath file_key)"
  obtain evs where cl: "cleanup_loop w (sessions m) m = (None, m\<lparr>sessions := live\<rparr>, evs)"
    using cleanup_loop_sessions [OF dict ok] unfolding live_def by blast
  have dlive: "distinct (map fst live)"
    unfolding live_def using dict by (simp add: distinct_map_filter)
  have unf: "res =
      (if length same = 0 then (Inr None, m\<lparr>sessions := live\<rparr>, evs)
       else if length same > 1
       then (Inl (InvalidSessionException
                    ''Only one session should exist while editing''),
             m\<lparr>sessions := live\<rparr>, evs)
       else
         (case hd same of
            (session_id, session) \<Rightarrow>
              if connection_state w session = ORPHANED
              then
                (Inr (Some session),
                 (if new_id \<noteq> session_id \<and>
                     map_of (AList.update new_id session live) session_id \<noteq> None
                  then m\<lparr>sessions :=
                         AList.delete session_id (AList.update new_id session live)\<rparr>
                  else m\<lparr>sessions := AList.update new_id session live\<rparr>), evs)
              else (Inr None, m\<lparr>sessions := live\<rparr>, evs)))"
    unfolding res_def same_def maybe_resume_session_def
    by (simp add: edit cl Let_def split: prod.splits)
  have many: "fst res = Inl (InvalidSessionException
                             ''Only one session should exist while editing'')"
    if "2 \<le> length same"
  proof -
    have "same \<noteq> []" using that by auto
    moreover have "1 < length same" using that by simp
    ultimately show ?thesis unfolding unf by simp
  qed
  have none: "fst res = Inr None \<and> sessions (fst (snd res)) = live"
    if "length same < 2" "\<not> (\<exists>sid s. same = [(sid, s)] \<and> connection_state w s = ORPHANED)"
  proof (cases same)
    case Nil
    then show ?thesis unfolding unf by simp
  next
    case (Cons a rest)
    then have r: "rest = []" using that(1) by simp
    obtain sid s where a: "a = (sid, s)" by (cases a)
    have one: "same = [(sid, s)]" using Cons r a by simp
    then have "connection_state w s \<noteq> ORPHANED" using that(2) by blast
    then show ?thesis unfolding unf one by simp
  qed
  have resume: "fst res = Inr (Some s)
          \<and> sessions (fst (snd res))
              = (if new_id = sid then live
                 else AList.delete sid (AList.update new_id s live))
          \<and> map_of (sessions (fst (snd res))) new_id = Some s
          \<and> (sid \<noteq> new_id \<longrightarrow> map_of (sessions (fst (snd res))) sid = None)
          \<and> filter ?P (sessions (fst (snd res))) = [(new_id, s)]"
    if one: "same = [(sid, s)]" and orph: "connection_state w s = ORPHANED" for sid s
  proof -
    have mem0: "(sid, s) \<in> set (filter ?P live)" using one unfolding same_def by simp
    then have mem: "(sid, s) \<in> set live" and ps: "?P (sid, s)" by simp_all
    have look: "map_of live sid = Some s" using dlive mem by simp
    have trivial: "AList.update sid s live = live"
      using look by (rule AList.update_triv)
    have r1: "fst res = Inr (Some s)"
      unfolding unf one using orph by simp
    have r2: "sessions (fst (snd res))
              = (if new_id = sid then live
                 else AList.delete sid (AList.update new_id s live))"
      unfolding unf one using orph look trivial
      by (simp add: AList.update_conv')
    have r3: "map_of (sessions (fst (snd res))) new_id = Some s"
      unfolding r2 using look by (simp add: AList.delete_conv' AList.update_conv')
    have r4: "sid \<noteq> new_id \<longrightarrow> map_of (sessions (fst (snd res))) sid = None"
      unfolding r2 by (simp add: AList.delete_conv')
    have r5: "filter ?P (sessions (fst (snd res))) = [(new_id, s)]"
    proof (cases "new_id = sid")
      case True
      then show ?thesis unfolding r2 using one unfolding same_def by simp
    next
      case False
      let ?Q = "\<lambda>x. (case x of (k', v) \<Rightarrow> k' \<noteq> sid) \<and> ?P x"
      have nq: "\<forall>x \<in> set live. \<not> ?Q x"
      proof
        fix x assume x: "x \<in> set live"
        show "\<not> ?Q x"
        proof
          assume q: "?Q x"
          then have "?P x" by simp
          then have "x = (sid, s)"
            using filter_single_others [of ?P live "(sid, s)" x] one x
            unfolding same_def by simp
          then show False using q by simp
        qed
      qed
      have q: "?Q (new_id, s)" using False ps by simp
      have "filter ?P (AList.delete sid (AList.update new_id s live))
              = filter ?Q (AList.update new_id s live)"
        unfolding AList.delete_eq filter_filter
        by (intro filter_cong refl) auto
      also have "\<dots> = [(new_id, s)]"
        by (rule filter_update_single [OF nq q])
      finally show ?thesis unfolding r2 using False by simp
    qed
    show ?thesis by (intro conjI) (fact r1 r2 r3 r4 r5)+
  qed
  show ?thesis
  proof (intro conjI)
    show "2 \<le> length same \<longrightarrow>
            fst res = Inl (InvalidSessionException
                             ''Only one session should exist while editing'')"
      by (intro impI, rule many)
    show "\<forall>sid s. same = [(sid, s)] \<and> connection_state w s = ORPHANED \<longrightarrow>
          fst res = Inr (Some s)
          \<and> sessions (fst (snd res))
              = (if new_id = sid then live
                 else AList.delete sid (AList.update new_id s live))
          \<and> map_of (sessions (fst (snd res))) new_id = Some s
          \<and> (sid \<noteq> new_id \<longrightarrow> map_of (sessions (fst (snd res))) sid = None)
          \<and> filter ?P (sessions (fst (snd res))) = [(new_id, s)]"
      by (intro allI impI, elim conjE, rule resume)
    show "length same < 2 \<and>
        \<not> (\<exists>sid s. same = [(sid, s)] \<and> connection_state w s = ORPHANED) \<longrightarrow>
          fst res = Inr None \<and> sessions (fst (snd res)) = live"
      by (intro impI, elim conjE, rule none)
  qed
qed

text \<open>
  In \<open>example_edit_manager\<close> the dead session of \<^verbatim>\<open>/nb/a.py\<close> is removed and
  the orphaned one is resumed under \<^verbatim>\<open>n1\<close>; for \<^verbatim>\<open>/nb/b.py\<close>, whose
  session is connected, nothing is resumed; in \<open>example_edit_manager_two\<close> two live
  sessions of \<^verbatim>\<open>/nb/a.py\<close> raise the exception.
\<close>

theorem edit_mode_resumption_witness:
  "mode example_edit_manager = EDIT
   \<and> distinct (map fst (sessions example_edit_manager))
   \<and> list_all (\<lambda>(k, s). \<not> kernel_dead s \<or>
                   fst (Session_close example_quiet_consumers s) = None)
        (sessions example_edit_manager)
   \<and> fst (maybe_resume_session example_quiet_consumers example_abspath
            example_edit_manager ''n1'' ''a.py'') = Inr (Some example_orphan_session)
   \<and> map fst (sessions (fst (snd (maybe_resume_session example_quiet_consumers
            example_abspath example_edit_manager ''n1'' ''a.py'')))) = [''s2'', ''n1'']
   \<and> filter (\<lambda>(k, s). app_file_manager_path s = Some (example_abspath ''a.py''))
        (sessions (fst (snd (maybe_resume_session example_quiet_consumers
            example_abspath example_edit_manager ''n1'' ''a.py''))))
       = [(''n1'', example_orphan_session)]
   \<and> fst (maybe_resume_session example_quiet_consumers example_abspath
            example_edit_manager ''n1'' ''b.py'') = Inr None
   \<and> fst (maybe_resume_session example_quiet_consumers example_abspath
            example_edit_manager_two ''n1'' ''a.py'')
       = Inl (InvalidSessionException ''Only one session should exist while editing'')"
proof -
  let ?w = example_quiet_consumers
  have dead: "kernel_dead example_dead_session"
    and live1: "\<not> kernel_dead example_orphan_session"
    and live2: "\<not> kernel_dead example_session"
    and live3: "\<not> kernel_dead (example_session\<lparr>app_file_manager_path := Some ''/nb/b.py''\<rparr>)"
    by (simp_all add: kernel_dead_def example_dead_session_def example_orphan_session_def
          example_session_def)
  have closes: "fst (Session_close ?w example_dead_session) = None"
    by (simp add: Session_close_def Room_close_def example_dead_session_def
          example_orphan_session_def example_session_def example_quiet_consumers_def
          example_consumers_def example_cache_manager_def SessionCacheManager_stop_def
          close_kernel_def close_queues_def Let_def)
  have paths: "app_file_manager_path example_orphan_session = Some ''/nb/a.py''"
    "app_file_manager_path example_dead_session = Some ''/nb/a.py''"
    "app_file_manager_path example_session = Some ''/nb/a.py''"
    by (simp_all add: example_dead_session_def example_orphan_session_def
          example_session_def)
  have orph: "connection_state ?w example_orphan_session = ORPHANED"
    by (simp add: connection_state_def example_orphan_session_def example_session_def)
  have conn: "connection_state ?w (example_session\<lparr>app_file_manager_path := Some ''/nb/b.py''\<rparr>)
                = OPEN"
    by (simp add: connection_state_def example_session_def example_room_def
          example_quiet_consumers_def example_consumers_def)
  have h1: "mode example_edit_manager = EDIT"
    and h2: "distinct (map fst (sessions example_edit_manager))"
    and h3: "\<forall>(k, s) \<in> set (sessions example_edit_manager).
               kernel_dead s \<longrightarrow> fst (Session_close ?w s) = None"
    using closes live1 live3 by (simp_all add: example_edit_manager_def)
  have g1: "mode example_edit_manager_two = EDIT"
    and g2: "distinct (map fst (sessions example_edit_manager_two))"
    and g3: "\<forall>(k, s) \<in> set (sessions example_edit_manager_two).
               kernel_dead s \<longrightarrow> fst (Session_close ?w s) = None"
    using live1 live2 by (simp_all add: example_edit_manager_two_def)
  have livel: "filter (\<lambda>(k, s). \<not> kernel_dead s) (sessions example_edit_manager)
      = [(''s1'', example_orphan_session),
         (''s2'', example_session\<lparr>app_file_manager_path := Some ''/nb/b.py''\<rparr>)]"
    using dead live1 live3 by (simp add: example_edit_manager_def)
  have livel2: "filter (\<lambda>(k, s). \<not> kernel_dead s) (sessions example_edit_manager_two)
      = [(''s1'', example_orphan_session), (''s2'', example_session)]"
    using live1 live2 by (simp add: example_edit_manager_two_def)
  note A = edit_mode_resumption [OF h1 h2 h3, of example_abspath "''a.py''" "''n1''"]
  note B = edit_mode_resumption [OF h1 h2 h3, of example_abspath "''b.py''" "''n1''"]
  note C = edit_mode_resumption [OF g1 g2 g3, of example_abspath "''a.py''" "''n1''"]
  have a: "fst (maybe_resume_session ?w example_abspath example_edit_manager ''n1'' ''a.py'')
             = Inr (Some example_orphan_session)
        \<and> sessions (fst (snd (maybe_resume_session ?w example_abspath
             example_edit_manager ''n1'' ''a.py'')))
             = [(''s2'', example_session\<lparr>app_file_manager_path := Some ''/nb/b.py''\<rparr>),
                (''n1'', example_orphan_session)]
        \<and> filter (\<lambda>(k, s). app_file_manager_path s = Some (example_abspath ''a.py''))
             (sessions (fst (snd (maybe_resume_session ?w example_abspath
                example_edit_manager ''n1'' ''a.py''))))
             = [(''n1'', example_orphan_session)]"
    using A orph unfolding livel
    by (simp add: paths example_abspath_def AList.delete_eq)
  have b: "fst (maybe_resume_session ?w example_abspath example_edit_manager ''n1'' ''b.py'')
             = Inr None"
    using B conn unfolding livel
    by (simp add: paths example_abspath_def)
  have c: "fst (maybe_resume_session ?w example_abspath example_edit_manager_two
                  ''n1'' ''a.py'')
       = Inl (InvalidSessionException ''Only one session should exist while editing'')"
    using C unfolding livel2
    by (simp add: paths example_abspath_def)
  have l3: "list_all (\<lambda>(k, s). \<not> kernel_dead s \<or> fst (Session_close ?w s) = None)
              (sessions example_edit_manager)"
    using closes live1 live3 by (simp add: example_edit_manager_def)
  have a': "map fst (sessions (fst (snd (maybe_resume_session ?w example_abspath
              example_edit_manager ''n1'' ''a.py'')))) = [''s2'', ''n1'']"
    using a by simp
  have a1: "fst (maybe_resume_session ?w example_abspath example_edit_manager
                   ''n1'' ''a.py'') = Inr (Some example_orphan_session)"
    and a3: "filter (\<lambda>(k, s). app_file_manager_path s = Some (example_abspath ''a.py''))
             (sessions (fst (snd (maybe_resume_session ?w example_abspath
                example_edit_manager ''n1'' ''a.py''))))
             = [(''n1'', example_orphan_session)]"
    using a by blast+
  show ?thesis
    by (intro conjI) (fact h1 h2 l3 a1 a' a3 b c)+
qed

end
